theory Spec2Isabelle
  imports Complex_Main
begin

section \<open>Values, errors and the numpy helpers the code relies on\<close>

text \<open>
  Python floats are modelled by the reals. Where Python raises, or where numpy hands back
  \<open>inf\<close> or \<open>nan\<close> with a RuntimeWarning, there is no real number to return, and the
  model returns an error instead: \<open>ZeroDivisionError\<close> stands for both outcomes of a
  division by zero.
\<close>

datatype error = ValueError | IndexError | ZeroDivisionError

text \<open>Evaluating a list of fallible results from left to right; the first error wins.\<close>

fun sequence :: "(error + 'a) list \<Rightarrow> error + 'a list" where
  "sequence [] = Inr []"
| "sequence (r # rs) =
     (case r of
        Inl e \<Rightarrow> Inl e
      | Inr v \<Rightarrow> (case sequence rs of Inl e \<Rightarrow> Inl e | Inr vs \<Rightarrow> Inr (v # vs)))"

text \<open>
  \<open>np.arange(start, stop, step)\<close> for a positive step: the values
  \<open>start + i * step\<close> for \<open>i < ceil((stop - start) / step)\<close>, none when \<open>stop \<le> start\<close>.
\<close>

definition arange :: "real \<Rightarrow> real \<Rightarrow> real \<Rightarrow> real list" where
  "arange start stop step =
     map (\<lambda>i. start + real i * step) [0 ..< nat \<lceil>(stop - start) / step\<rceil>]"

text \<open>Python's \<open>min\<close> over an iterable: ValueError when it is empty.\<close>

definition py_min :: "real list \<Rightarrow> error + real" where
  "py_min xs = (case xs of [] \<Rightarrow> Inl ValueError | y # ys \<Rightarrow> Inr (fold min ys y))"

section \<open>The SNAIL element\<close>

text \<open>
  \<open>SNAIL n alpha phi_ext Lj\<close> is an instance of class \<open>SNAIL\<close>, its fields in the order
  of \<open>__init__(self, n, alpha, phi_ext, Lj)\<close>; \<open>SNAIL2 Ej n alpha phi_ext\<close> is an instance
  of class \<open>SNAIL2\<close>, in the order of \<open>__init__(self, Ej, n, alpha, phi_ext)\<close>.
\<close>

datatype SNAIL = SNAIL real real real real

datatype SNAIL2 = SNAIL2 real real real real

fun SNAIL_potential :: "SNAIL \<Rightarrow> real \<Rightarrow> error + real" where
  "SNAIL_potential (SNAIL n alpha phi_ext Lj) phi =
     (if n = 0 then Inl ZeroDivisionError
      else
        let pot_branch1 = - alpha * cos phi;
            pot_branch2 = - n * cos ((phi_ext - phi) / n)
        in Inr (pot_branch1 + pot_branch2))"

fun SNAIL_potential_derivative :: "SNAIL \<Rightarrow> real \<Rightarrow> error + real" where
  "SNAIL_potential_derivative (SNAIL n alpha phi_ext Lj) phi =
     (if n = 0 then Inl ZeroDivisionError
      else
        let pot_branch1_derivative = alpha * sin phi;
            pot_branch2_derivative = - sin ((phi_ext - phi) / n)
        in Inr (pot_branch1_derivative + pot_branch2_derivative))"

fun SNAIL2_potential :: "SNAIL2 \<Rightarrow> real \<Rightarrow> bool \<Rightarrow> error + real" where
  "SNAIL2_potential (SNAIL2 Ej n alpha phi_ext) phi norm_flag =
     (if n = 0 then Inl ZeroDivisionError
      else
        let pot_branch1 = - alpha * cos phi;
            pot_branch2 = - n * cos ((phi_ext - phi) / n)
        in if norm_flag then Inr (pot_branch1 + pot_branch2)
           else Inr (Ej * (pot_branch1 + pot_branch2)))"

fun SNAIL2_potential_derivative :: "SNAIL2 \<Rightarrow> real \<Rightarrow> bool \<Rightarrow> error + real" where
  "SNAIL2_potential_derivative (SNAIL2 Ej n alpha phi_ext) phi norm_flag =
     (if n = 0 then Inl ZeroDivisionError
      else
        let pot_branch1_derivative = alpha * sin phi;
            pot_branch2_derivative = - sin ((phi_ext - phi) / n);
            Ej' = (if norm_flag then 1 else Ej)
        in Inr (Ej' * (pot_branch1_derivative + pot_branch2_derivative)))"

text \<open>
  \<open>has_multiple_wells\<close> hands the derivative and the window \<open>0\<close>, \<open>n * 2 * pi\<close> to
  \<open>more_than_2_roots\<close> of \<open>snail_solver.helper_functions\<close>, a module that is not among
  the sources; the helper is a parameter.
\<close>

fun SNAIL_has_multiple_wells ::
  "((real \<Rightarrow> error + real) \<Rightarrow> real \<Rightarrow> real \<Rightarrow> bool) \<Rightarrow> SNAIL \<Rightarrow> bool" where
  "SNAIL_has_multiple_wells more_than_2_roots (SNAIL n alpha phi_ext Lj) =
     more_than_2_roots (SNAIL_potential_derivative (SNAIL n alpha phi_ext Lj)) 0 (n * 2 * pi)"

section \<open>numpy polynomials and the external solvers\<close>

text \<open>
  A \<open>np.poly1d\<close> is its coefficient array, highest power first. The constructor trims
  leading zeros and keeps \<open>[0]\<close> when nothing is left; \<open>len(p)\<close> is the order of the
  polynomial; \<open>p[k]\<close> is the coefficient of power \<open>k\<close>, and 0 when \<open>k\<close> is negative or
  above the order; \<open>p(x)\<close> is Horner's rule; \<open>c * p\<close> for a scalar \<open>c\<close> builds a new
  \<open>poly1d\<close> from the scaled coefficients.
\<close>

definition poly1d :: "real list \<Rightarrow> real list" where
  "poly1d c = (case dropWhile (\<lambda>a. a = 0) c of [] \<Rightarrow> [0] | d # ds \<Rightarrow> d # ds)"

definition poly1d_len :: "real list \<Rightarrow> nat" where
  "poly1d_len p = length p - 1"

definition poly1d_getitem :: "real list \<Rightarrow> int \<Rightarrow> real" where
  "poly1d_getitem p val =
     (let ind = int (poly1d_len p) - val
      in if val > int (poly1d_len p) then 0
         else if val < 0 then 0
         else p ! nat ind)"

definition poly1d_call :: "real list \<Rightarrow> real \<Rightarrow> real" where
  "poly1d_call p x = foldl (\<lambda>y c. y * x + c) 0 p"

definition poly1d_rmul :: "real \<Rightarrow> real list \<Rightarrow> real list" where
  "poly1d_rmul c p = poly1d (map (\<lambda>a. c * a) p)"

text \<open>Python's \<open>range(m)\<close> for an integer \<open>m\<close>: empty when \<open>m \<le> 0\<close>.\<close>

definition py_range :: "int \<Rightarrow> nat list" where
  "py_range m = [0 ..< nat m]"

text \<open>
  \<open>b ** e\<close> for a float \<open>b\<close> and an integer \<open>e\<close>: a zero base with a negative exponent
  has no value.
\<close>

definition py_pow :: "real \<Rightarrow> int \<Rightarrow> error + real" where
  "py_pow b e =
     (if 0 \<le> e then Inr (b ^ nat e)
      else if b = 0 then Inl ZeroDivisionError
      else Inr (1 / b ^ nat (- e)))"

text \<open>
  What the classes take from outside the sources: the constants \<open>hbar\<close> and
  \<open>flux_quantum\<close> of \<open>snail_solver.helper_functions\<close>, \<open>scipy.optimize.minimize\<close>
  (\<open>minimize f x0\<close> is \<open>minimize(f, x0).x[0]\<close>) and
  \<open>scipy.interpolate.approximate_taylor_polynomial\<close>
  (\<open>approximate_taylor_polynomial f x degree scale order\<close> is the coefficient array,
  highest power first, from which scipy builds the \<open>poly1d\<close> it returns).
\<close>

record externals =
  hbar :: real
  flux_quantum :: real
  minimize :: "(real \<Rightarrow> error + real) \<Rightarrow> real \<Rightarrow> real"
  approximate_taylor_polynomial ::
    "(real \<Rightarrow> error + real) \<Rightarrow> real \<Rightarrow> nat \<Rightarrow> real \<Rightarrow> nat \<Rightarrow> real list"

section \<open>Expansion around the minimum\<close>

text \<open>\<open>order = order if order else degree + 10\<close>: \<open>None\<close> and \<open>0\<close> are both falsy.\<close>

definition default_order :: "nat option \<Rightarrow> nat \<Rightarrow> nat" where
  "default_order order degree =
     (case order of None \<Rightarrow> degree + 10 | Some k \<Rightarrow> if k = 0 then degree + 10 else k)"

text \<open>
  Lines 45 and 46 (163 and 164 in \<open>SNAIL2\<close>): the grid and the value named \<open>phi_min_0\<close>,
  which is the starting point handed to \<open>minimize\<close>.
\<close>

fun SNAIL_phi_array :: "SNAIL \<Rightarrow> real list" where
  "SNAIL_phi_array (SNAIL n alpha phi_ext Lj) = arange (- pi * n) (pi * n) 0.01"

definition SNAIL_phi_min_0 :: "SNAIL \<Rightarrow> error + real" where
  "SNAIL_phi_min_0 s =
     (case sequence (map (\<lambda>phi. SNAIL_potential s phi) (SNAIL_phi_array s)) of
        Inl e \<Rightarrow> Inl e
      | Inr vs \<Rightarrow> py_min vs)"

fun SNAIL2_phi_array :: "SNAIL2 \<Rightarrow> real list" where
  "SNAIL2_phi_array (SNAIL2 Ej n alpha phi_ext) = arange (- pi * n) (pi * n) 0.01"

definition SNAIL2_phi_min_0 :: "SNAIL2 \<Rightarrow> error + real" where
  "SNAIL2_phi_min_0 s =
     (case sequence (map (\<lambda>phi. SNAIL2_potential s phi True) (SNAIL2_phi_array s)) of
        Inl e \<Rightarrow> Inl e
      | Inr vs \<Rightarrow> py_min vs)"

text \<open>
  \<open>SNAIL.solve_expansion\<close> returns \<open>(phi_min, Ej, taylor_potential)\<close>. A zero
  denominator makes \<open>Ej\<close> infinite without stopping the method, so \<open>Ej\<close> carries its own
  error.
\<close>

fun SNAIL_solve_expansion ::
  "externals \<Rightarrow> SNAIL \<Rightarrow> nat \<Rightarrow> real \<Rightarrow> nat option \<Rightarrow> error + real \<times> (error + real) \<times> real list" where
  "SNAIL_solve_expansion ext (SNAIL n alpha phi_ext Lj) degree scale order =
     (let order' = default_order order degree
      in case SNAIL_phi_min_0 (SNAIL n alpha phi_ext Lj) of
           Inl e \<Rightarrow> Inl e
         | Inr phi_min_0 \<Rightarrow>
             let phi_min = minimize ext (SNAIL_potential (SNAIL n alpha phi_ext Lj)) phi_min_0;
                 taylor_potential =
                   poly1d (approximate_taylor_polynomial ext
                     (SNAIL_potential (SNAIL n alpha phi_ext Lj)) phi_min degree scale order');
                 a2 = poly1d_getitem taylor_potential 2;
                 Ej = (if 2 * pi * hbar ext * Lj * a2 = 0 then Inl ZeroDivisionError
                       else Inr (1 / 2 / (2 * pi * hbar ext * Lj * a2)
                                   * (flux_quantum ext / 2 / pi) ^ 2))
             in Inr (phi_min, Ej, taylor_potential))"

fun SNAIL2_solve_expansion ::
  "externals \<Rightarrow> SNAIL2 \<Rightarrow> nat \<Rightarrow> real \<Rightarrow> nat option \<Rightarrow> bool \<Rightarrow> error + real \<times> real list" where
  "SNAIL2_solve_expansion ext (SNAIL2 Ej n alpha phi_ext) degree scale order norm_flag =
     (let order' = default_order order degree
      in case SNAIL2_phi_min_0 (SNAIL2 Ej n alpha phi_ext) of
           Inl e \<Rightarrow> Inl e
         | Inr phi_min_0 \<Rightarrow>
             let phi_min = minimize ext
                   (\<lambda>phi. SNAIL2_potential (SNAIL2 Ej n alpha phi_ext) phi True) phi_min_0;
                 taylor_potential =
                   poly1d (approximate_taylor_polynomial ext
                     (\<lambda>phi. SNAIL2_potential (SNAIL2 Ej n alpha phi_ext) phi True)
                     phi_min degree scale order');
                 Ej' = (if norm_flag then 1 else Ej)
             in Inr (phi_min, poly1d_rmul Ej' taylor_potential))"

definition SNAIL2_inductance :: "externals \<Rightarrow> SNAIL2 \<Rightarrow> nat \<Rightarrow> error + real" where
  "SNAIL2_inductance ext s degree =
     (case SNAIL2_solve_expansion ext s degree (9 * pi) None False of
        Inl e \<Rightarrow> Inl e
      | Inr (phi_min, taylor_expansion) \<Rightarrow>
          let a2 = poly1d_getitem taylor_expansion 2
          in if 2 * pi * hbar ext * a2 = 0 then Inl ZeroDivisionError
             else Inr (1 / 2 / (2 * pi * hbar ext * a2) * (flux_quantum ext / 2 / pi) ^ 2))"

text \<open>
  \<open>truncated_potential\<close> returns the closure \<open>potential\<close> with \<open>a3\<close> and \<open>a4\<close>. The
  closure sums, for \<open>k\<close> in \<open>range(len(taylor_potential) + 1 - limit)\<close>, the term of power
  \<open>degree - k\<close>; in \<open>SNAIL\<close> each term carries the factor \<open>1 if norm else Ej\<close>.
\<close>

definition SNAIL_truncated_potential ::
  "externals \<Rightarrow> SNAIL \<Rightarrow> nat \<Rightarrow> real \<Rightarrow> nat option \<Rightarrow> bool \<Rightarrow> bool \<Rightarrow> bool
     \<Rightarrow> error + (real \<Rightarrow> error + real) \<times> real \<times> real" where
  "SNAIL_truncated_potential ext s degree scale order norm_flag shift nonlinear =
     (case SNAIL_solve_expansion ext s degree scale order of
        Inl e \<Rightarrow> Inl e
      | Inr (phi_0, Ej, taylor_potential) \<Rightarrow>
          let phi_0' = (if shift then phi_0 else 0);
              limit = (if nonlinear then 3 else 0);
              a3 = poly1d_getitem taylor_potential 3;
              a4 = poly1d_getitem taylor_potential 4;
              potential = (\<lambda>x.
                case sequence (map (\<lambda>k.
                       case (if norm_flag then Inr 1 else Ej) of
                         Inl e \<Rightarrow> Inl e
                       | Inr f \<Rightarrow>
                           (case py_pow (x - phi_0') (int degree - int k) of
                              Inl e \<Rightarrow> Inl e
                            | Inr pw \<Rightarrow>
                                Inr (f * poly1d_getitem taylor_potential (int degree - int k) * pw)))
                     (py_range (int (poly1d_len taylor_potential) + 1 - limit))) of
                  Inl e \<Rightarrow> Inl e
                | Inr terms \<Rightarrow> Inr (sum_list terms))
          in Inr (potential, a3, a4))"

definition SNAIL2_truncated_potential ::
  "externals \<Rightarrow> SNAIL2 \<Rightarrow> nat \<Rightarrow> real \<Rightarrow> nat option \<Rightarrow> bool \<Rightarrow> bool \<Rightarrow> bool
     \<Rightarrow> error + (real \<Rightarrow> error + real) \<times> real \<times> real" where
  "SNAIL2_truncated_potential ext s degree scale order norm_flag shift nonlinear =
     (case SNAIL2_solve_expansion ext s degree scale order norm_flag of
        Inl e \<Rightarrow> Inl e
      | Inr (phi_0, taylor_potential) \<Rightarrow>
          let phi_0' = (if shift then phi_0 else 0);
              limit = (if nonlinear then 3 else 0);
              a3 = poly1d_getitem taylor_potential 3;
              a4 = poly1d_getitem taylor_potential 4;
              potential = (\<lambda>x.
                case sequence (map (\<lambda>k.
                       case py_pow (x - phi_0') (int degree - int k) of
                         Inl e \<Rightarrow> Inl e
                       | Inr pw \<Rightarrow>
                           Inr (poly1d_getitem taylor_potential (int degree - int k) * pw))
                     (py_range (int (poly1d_len taylor_potential) + 1 - limit))) of
                  Inl e \<Rightarrow> Inl e
                | Inr terms \<Rightarrow> Inr (sum_list terms))
          in Inr (potential, a3, a4))"

section \<open>The sweep driver\<close>

text \<open>
  \<open>optimize_parameters_coupling.py\<close> assembles, for each pair \<open>(alpha, phi_ext)\<close>, a
  circuit from classes that are not among the sources (\<open>snail_element\<close>, \<open>ancilla\<close>,
  \<open>circuit\<close>) and reads the cavity eigenvalues with
  \<open>circuit.get_eigenstate({1: i})[0]\<close>. That call is the parameter \<open>get_eigenstate\<close>:
  \<open>get_eigenstate alpha phi_ext i\<close> is the eigenvalue read for level \<open>i\<close> of the circuit
  built with the module's constants and the pair \<open>(alpha, phi_ext)\<close>.
\<close>

type_synonym eigen_oracle = "real \<Rightarrow> real \<Rightarrow> nat \<Rightarrow> complex"

definition fock_trunc :: nat where
  "fock_trunc = 18"

definition alpha_list :: "real list" where
  "alpha_list = arange 0.2 0.4 0.01"

definition phi_ext_list :: "real list" where
  "phi_ext_list = arange (0.2 * 2 * pi) (0.491 * 2 * pi) (0.01 * 2 * pi)"

definition cavity_evals :: "eigen_oracle \<Rightarrow> real \<Rightarrow> real \<Rightarrow> complex list" where
  "cavity_evals get_eigenstate alpha phi_ext =
     map (\<lambda>i. get_eigenstate alpha phi_ext i) [0 ..< fock_trunc - 3]"

text \<open>The numpy idiom \<open>a[1:] - a[:-1]\<close>.\<close>

definition successive_diffs :: "real list \<Rightarrow> real list" where
  "successive_diffs a = map2 (-) (tl a) (butlast a)"

text \<open>
  Lines 41 to 45 of the driver. \<open>cavity_evals[0]\<close> raises IndexError on an empty list;
  \<open>np.max\<close> raises ValueError on an empty array (\<open>np.average\<close> of it is \<open>nan\<close>, which
  the raise discards).
\<close>

definition kerr :: "complex list \<Rightarrow> error + real \<times> real" where
  "kerr evals =
     (case evals of
        [] \<Rightarrow> Inl IndexError
      | e0 # _ \<Rightarrow>
          let relative_evals = map (\<lambda>e. Re (e - e0) / 1000000) evals;
              transit_energies = successive_diffs relative_evals;
              anharm = successive_diffs transit_energies
          in if anharm = [] then Inl ValueError
             else
               let avg_kerr = 1000 * (sum_list anharm / real (length anharm));
                   max_kerr = 1000 * Max (set (map abs anharm))
               in Inr (avg_kerr, max_kerr))"

text \<open>
  The loop body: the state is the pair \<open>(cavity_kerr_list, max_kerr_list)\<close>, and each
  iteration appends one value to each list.
\<close>

definition sweep_body ::
  "eigen_oracle \<Rightarrow> real \<Rightarrow> real \<Rightarrow> real list \<times> real list \<Rightarrow> error + real list \<times> real list" where
  "sweep_body get_eigenstate alpha phi_ext st =
     (case kerr (cavity_evals get_eigenstate alpha phi_ext) of
        Inl e \<Rightarrow> Inl e
      | Inr (avg_kerr, max_kerr) \<Rightarrow> Inr (fst st @ [avg_kerr], snd st @ [max_kerr]))"

fun inner_loop ::
  "eigen_oracle \<Rightarrow> real \<Rightarrow> real list \<Rightarrow> real list \<times> real list \<Rightarrow> error + real list \<times> real list" where
  "inner_loop get_eigenstate alpha [] st = Inr st"
| "inner_loop get_eigenstate alpha (phi_ext # phis) st =
     (case sweep_body get_eigenstate alpha phi_ext st of
        Inl e \<Rightarrow> Inl e
      | Inr st' \<Rightarrow> inner_loop get_eigenstate alpha phis st')"

fun outer_loop ::
  "eigen_oracle \<Rightarrow> real list \<Rightarrow> real list \<Rightarrow> real list \<times> real list \<Rightarrow> error + real list \<times> real list" where
  "outer_loop get_eigenstate [] phis st = Inr st"
| "outer_loop get_eigenstate (alpha # alphas) phis st =
     (case inner_loop get_eigenstate alpha phis st of
        Inl e \<Rightarrow> Inl e
      | Inr st' \<Rightarrow> outer_loop get_eigenstate alphas phis st')"

definition sweep :: "eigen_oracle \<Rightarrow> error + real list \<times> real list" where
  "sweep get_eigenstate = outer_loop get_eigenstate alpha_list phi_ext_list ([], [])"

text \<open>\<open>np.reshape\<close> of a flat list to \<open>rows\<close> by \<open>cols\<close>, in row-major order.\<close>

definition reshape :: "real list \<Rightarrow> nat \<times> nat \<Rightarrow> error + real list list" where
  "reshape xs shape =
     (if length xs = fst shape * snd shape
      then Inr (map (\<lambda>i. take (snd shape) (drop (i * snd shape) xs)) [0 ..< fst shape])
      else Inl ValueError)"

text \<open>The driver up to the two reshaped grids that are plotted.\<close>

definition driver :: "eigen_oracle \<Rightarrow> error + real list list \<times> real list list" where
  "driver get_eigenstate =
     (case sweep get_eigenstate of
        Inl e \<Rightarrow> Inl e
      | Inr (cavity_kerr_list, max_kerr_list) \<Rightarrow>
          let reshape_dim = (length alpha_list, length phi_ext_list)
          in (case reshape cavity_kerr_list reshape_dim of
                Inl e \<Rightarrow> Inl e
              | Inr cavity_kerr_grid \<Rightarrow>
                  (case reshape max_kerr_list reshape_dim of
                     Inl e \<Rightarrow> Inl e
                   | Inr max_kerr_grid \<Rightarrow> Inr (cavity_kerr_grid, max_kerr_grid))))"

text \<open>
  The reading of the Kerr values in the words of the specification: the relative
  eigenvalue \<open>Re(e_i - e_0)/1e6\<close> and its second finite difference.
\<close>

definition spec_relative_eval :: "complex list \<Rightarrow> nat \<Rightarrow> real" where
  "spec_relative_eval evals i = Re (evals ! i - evals ! 0) / 1000000"

definition spec_second_difference :: "complex list \<Rightarrow> nat \<Rightarrow> real" where
  "spec_second_difference evals i =
     spec_relative_eval evals (i + 2) - 2 * spec_relative_eval evals (i + 1)
       + spec_relative_eval evals i"

section \<open>Properties of the potential\<close>

lemma cos_add_int_period: "cos (x + 2 * pi * real_of_int k) = cos x"
  using sin_cos_eq_iff [of "x + 2 * pi * real_of_int k" x] by blast

lemma potential_formula_deriv:
  assumes "n \<noteq> 0"
  shows "((\<lambda>x. - alpha * cos x + - n * cos ((phi_ext - x) / n)) has_real_derivative
           (alpha * sin phi + - sin ((phi_ext - phi) / n))) (at phi)"
  using assms by (auto intro!: derivative_eq_intros simp: field_simps)

text \<open>
  C5. For a SNAIL with \<open>n \<noteq> 0\<close> and every real \<open>phi\<close>, \<open>potential(phi)\<close> is
  \<open>-alpha*cos(phi) - n*cos((phi_ext - phi)/n)\<close>, \<open>potential_derivative(phi)\<close> is
  \<open>alpha*sin(phi) - sin((phi_ext - phi)/n)\<close>, and the second function is the derivative
  of the first at every \<open>phi\<close>. (With \<open>n = 0\<close> neither the code nor the formula has a
  value.)
\<close>

theorem SNAIL_potential_derivative_exact:
  assumes "n \<noteq> 0"
  shows "SNAIL_potential (SNAIL n alpha phi_ext Lj) phi =
           Inr (- alpha * cos phi - n * cos ((phi_ext - phi) / n))
       \<and> SNAIL_potential_derivative (SNAIL n alpha phi_ext Lj) phi =
           Inr (alpha * sin phi - sin ((phi_ext - phi) / n))
       \<and> ((\<lambda>x. projr (SNAIL_potential (SNAIL n alpha phi_ext Lj) x)) has_real_derivative
            projr (SNAIL_potential_derivative (SNAIL n alpha phi_ext Lj) phi)) (at phi)"
proof -
  have "((\<lambda>x. projr (SNAIL_potential (SNAIL n alpha phi_ext Lj) x)) has_real_derivative
          projr (SNAIL_potential_derivative (SNAIL n alpha phi_ext Lj) phi)) (at phi)"
    using potential_formula_deriv [OF assms, of alpha phi_ext phi] assms by simp
  then show ?thesis
    using assms by simp
qed

theorem SNAIL_potential_derivative_exact_witness:
  "SNAIL_potential (SNAIL 3 (1/5) 1 (1/4)) 0 = Inr (- (1/5) * cos 0 - 3 * cos ((1 - 0) / 3))
   \<and> SNAIL_potential_derivative (SNAIL 3 (1/5) 1 (1/4)) 0 =
       Inr (1/5 * sin 0 - sin ((1 - 0) / 3))
   \<and> ((\<lambda>x. projr (SNAIL_potential (SNAIL 3 (1/5) 1 (1/4)) x)) has_real_derivative
        projr (SNAIL_potential_derivative (SNAIL 3 (1/5) 1 (1/4)) 0)) (at 0)"
  using SNAIL_potential_derivative_exact [of 3 "1/5" 1 "1/4" 0] by simp

text \<open>
  C9. For equal \<open>n\<close>, \<open>alpha\<close>, \<open>phi_ext\<close> and every \<open>phi\<close>, \<open>SNAIL.potential(phi)\<close> and
  \<open>SNAIL2.potential(phi, norm=True)\<close> agree, and so do the two \<open>potential_derivative\<close>
  methods; \<open>SNAIL2\<close> with \<open>norm=False\<close> returns \<open>Ej\<close> times its \<open>norm=True\<close> value. Both
  classes fail alike when \<open>n = 0\<close>.
\<close>

theorem SNAIL_SNAIL2_agree:
  "SNAIL_potential (SNAIL n alpha phi_ext Lj) phi =
     SNAIL2_potential (SNAIL2 Ej n alpha phi_ext) phi True
   \<and> SNAIL_potential_derivative (SNAIL n alpha phi_ext Lj) phi =
     SNAIL2_potential_derivative (SNAIL2 Ej n alpha phi_ext) phi True
   \<and> SNAIL2_potential (SNAIL2 Ej n alpha phi_ext) phi False =
     map_sum id ((*) Ej) (SNAIL2_potential (SNAIL2 Ej n alpha phi_ext) phi True)
   \<and> SNAIL2_potential_derivative (SNAIL2 Ej n alpha phi_ext) phi False =
     map_sum id ((*) Ej) (SNAIL2_potential_derivative (SNAIL2 Ej n alpha phi_ext) phi True)"
  by (simp add: Let_def)

theorem SNAIL_SNAIL2_agree_witness:
  "SNAIL2_potential (SNAIL2 2 3 (1/5) 1) 0 True = SNAIL_potential (SNAIL 3 (1/5) 1 (1/4)) 0
   \<and> SNAIL2_potential (SNAIL2 2 3 (1/5) 1) 0 False =
       Inr (2 * (- (1/5) - 3 * cos (1/3)))
   \<and> SNAIL2_potential_derivative (SNAIL2 2 3 (1/5) 1) 0 False = Inr (2 * - sin (1/3))"
  using SNAIL_SNAIL2_agree [of 3 "1/5" 1 "1/4" 0 2] by (simp add: Let_def)

text \<open>
  C10. For a SNAIL whose \<open>n\<close> is an integer with \<open>n \<ge> 1\<close>, the potential has period
  \<open>2*pi*n\<close> in the flux: \<open>potential(phi + 2*pi*n) = potential(phi)\<close> for every real
  \<open>phi\<close>; the window \<open>0\<close>, \<open>n*2*pi\<close> that \<open>has_multiple_wells\<close> hands to
  \<open>more_than_2_roots\<close> starts at 0 and has exactly that length.
\<close>

theorem SNAIL_potential_periodic:
  assumes "n \<in> \<int>" and "1 \<le> n"
  shows "SNAIL_potential (SNAIL n alpha phi_ext Lj) (phi + 2 * pi * n) =
           SNAIL_potential (SNAIL n alpha phi_ext Lj) phi
       \<and> SNAIL_has_multiple_wells more_than_2_roots (SNAIL n alpha phi_ext Lj) =
           more_than_2_roots (SNAIL_potential_derivative (SNAIL n alpha phi_ext Lj))
             0 (0 + 2 * pi * n)"
proof -
  from assms(1) obtain k where k: "n = real_of_int k"
    by (auto elim: Ints_cases)
  have n0: "n \<noteq> 0"
    using assms(2) by simp
  have c1: "cos (phi + 2 * pi * n) = cos phi"
    unfolding k by (rule cos_add_int_period)
  have "(phi_ext - (phi + 2 * pi * n)) / n = (phi_ext - phi) / n - 2 * pi"
    using n0 by (simp add: field_simps)
  then have c2: "cos ((phi_ext - (phi + 2 * pi * n)) / n) = cos ((phi_ext - phi) / n)"
    using cos_periodic [of "(phi_ext - phi) / n - 2 * pi"] by simp
  have w: "n * 2 * pi = 0 + 2 * pi * n"
    by simp
  show ?thesis
    using n0 c1 c2 by (simp add: mult.commute mult.left_commute)
qed

theorem SNAIL_potential_periodic_witness:
  "SNAIL_potential (SNAIL 3 (1/5) 1 (1/4)) (0 + 2 * pi * 3) =
     SNAIL_potential (SNAIL 3 (1/5) 1 (1/4)) 0
   \<and> SNAIL_has_multiple_wells (\<lambda>f a b. b = 6 * pi) (SNAIL 3 (1/5) 1 (1/4))"
  using SNAIL_potential_periodic [of 3 "1/5" 1 "1/4" 0 "\<lambda>f a b. b = 6 * pi"] by simp

section \<open>Kerr values of one sweep iteration\<close>

lemma length_successive_diffs: "length (successive_diffs a) = length a - 1"
  by (simp add: successive_diffs_def)

lemma nth_successive_diffs:
  "i < length a - 1 \<Longrightarrow> successive_diffs a ! i = a ! Suc i - a ! i"
  by (simp add: successive_diffs_def nth_tl nth_butlast)

lemma nth_successive_diffs2:
  assumes "i + 2 < length a"
  shows "successive_diffs (successive_diffs a) ! i = a ! (i + 2) - 2 * a ! (i + 1) + a ! i"
proof -
  have "successive_diffs (successive_diffs a) ! i =
          successive_diffs a ! Suc i - successive_diffs a ! i"
    using assms by (simp add: nth_successive_diffs length_successive_diffs)
  then show ?thesis
    using assms by (simp add: nth_successive_diffs)
qed

lemma length_cavity_evals: "length (cavity_evals ge a p) = 15"
  by (simp add: cavity_evals_def fock_trunc_def)

lemma anharm_spec:
  assumes "evals = e0 # rest"
  shows "successive_diffs (successive_diffs (map (\<lambda>e. Re (e - e0) / 1000000) evals)) =
           map (spec_second_difference evals) [0 ..< length evals - 2]"
proof (rule nth_equalityI)
  show "length (successive_diffs (successive_diffs (map (\<lambda>e. Re (e - e0) / 1000000) evals))) =
          length (map (spec_second_difference evals) [0 ..< length evals - 2])"
    by (simp add: length_successive_diffs)
next
  fix i
  assume "i < length (successive_diffs (successive_diffs (map (\<lambda>e. Re (e - e0) / 1000000) evals)))"
  then have i: "i + 2 < length evals"
    by (simp add: length_successive_diffs)
  have e0: "evals ! 0 = e0"
    using assms by simp
  have "successive_diffs (successive_diffs (map (\<lambda>e. Re (e - e0) / 1000000) evals)) ! i =
          spec_second_difference evals i"
    using i by (simp add: nth_successive_diffs2 spec_second_difference_def
        spec_relative_eval_def e0)
  then show "successive_diffs (successive_diffs (map (\<lambda>e. Re (e - e0) / 1000000) evals)) ! i =
          map (spec_second_difference evals) [0 ..< length evals - 2] ! i"
    using i by simp
qed

lemma kerr_spec:
  assumes "3 \<le> length evals"
  shows "kerr evals =
           Inr (1000 * ((\<Sum>i<length evals - 2. spec_second_difference evals i)
                          / real (length evals - 2)),
                1000 * Max ((\<lambda>i. \<bar>spec_second_difference evals i\<bar>) ` {..<length evals - 2}))"
proof -
  from assms obtain e0 rest where ev: "evals = e0 # rest"
    by (cases evals) auto
  let ?m = "length evals - 2"
  have m: "0 < ?m"
    using assms by simp
  have an: "successive_diffs (successive_diffs (map (\<lambda>e. Re (e - e0) / 1000000) evals)) =
              map (spec_second_difference evals) [0 ..< ?m]"
    by (rule anharm_spec [OF ev])
  have ne: "map (spec_second_difference evals) [0 ..< ?m] \<noteq> []"
    using m by simp
  have s: "sum_list (map (spec_second_difference evals) [0 ..< ?m]) =
             (\<Sum>i<?m. spec_second_difference evals i)"
    by (simp add: interv_sum_list_conv_sum_set_nat atLeast0LessThan)
  have mx: "set (map abs (map (spec_second_difference evals) [0 ..< ?m])) =
              (\<lambda>i. \<bar>spec_second_difference evals i\<bar>) ` {..<?m}"
    by (auto simp: atLeast0LessThan)
  have "kerr evals =
          Inr (1000 * (sum_list (map (spec_second_difference evals) [0 ..< ?m])
                        / real (length (map (spec_second_difference evals) [0 ..< ?m]))),
               1000 * Max (set (map abs (map (spec_second_difference evals) [0 ..< ?m]))))"
    unfolding kerr_def using ne an by (simp add: ev Let_def del: map_map upt_Suc)
  then show ?thesis
    unfolding s mx by simp
qed


lemma spec_second_difference_equally_spaced:
  assumes "\<forall>i<length evals. evals ! i = evals ! 0 + of_nat i * d" and "i + 2 < length evals"
  shows "spec_second_difference evals i = 0"
proof -
  have r: "spec_relative_eval evals j = real j * Re d / 1000000" if "j < length evals" for j
    using assms(1) that by (simp add: spec_relative_eval_def)
  show ?thesis
    using assms(2) by (simp add: spec_second_difference_def r algebra_simps)
qed

lemma kerr_equally_spaced:
  assumes "3 \<le> length evals"
    and "\<forall>i<length evals. evals ! i = evals ! 0 + of_nat i * d"
  shows "kerr evals = Inr (0, 0)"
proof -
  let ?m = "length evals - 2"
  have z: "spec_second_difference evals i = 0" if "i < ?m" for i
    using spec_second_difference_equally_spaced [OF assms(2), of i] that by simp
  have ne: "{..<?m} \<noteq> {}"
    using assms(1) by (auto simp: lessThan_empty_iff)
  have "(\<lambda>i. \<bar>spec_second_difference evals i\<bar>) ` {..<?m} = (\<lambda>i. 0) ` {..<?m}"
    by (rule image_cong) (simp_all add: z)
  also have "\<dots> = {0}"
    using ne by auto
  finally have mx: "(\<lambda>i. \<bar>spec_second_difference evals i\<bar>) ` {..<?m} = {0}" .
  have s: "(\<Sum>i<?m. spec_second_difference evals i) = 0"
    by (rule sum.neutral) (simp add: z)
  show ?thesis
    unfolding kerr_spec [OF assms(1)] mx s by simp
qed



lemma sum_list_le_length_times:
  fixes ys :: "real list"
  assumes "\<forall>y\<in>set ys. y \<le> M"
  shows "sum_list ys \<le> real (length ys) * M"
  using assms by (induction ys) (auto simp: algebra_simps)

text \<open>
  C8. Whenever the Kerr computation of an iteration returns \<open>(avg_kerr, max_kerr)\<close>,
  \<open>max_kerr \<ge> 0\<close> and \<open>max_kerr \<ge> |avg_kerr|\<close>.
\<close>

theorem max_kerr_dominates_avg_kerr:
  assumes "kerr evals = Inr (avg_kerr, max_kerr)"
  shows "0 \<le> max_kerr \<and> \<bar>avg_kerr\<bar> \<le> max_kerr"
proof -
  from assms obtain e0 rest where ev: "evals = e0 # rest"
    by (cases evals) (auto simp: kerr_def)
  define anharm where
    "anharm = successive_diffs (successive_diffs (map (\<lambda>e. Re (e - e0) / 1000000) evals))"
  define M where "M = Max (set (map abs anharm))"
  have ne: "anharm \<noteq> []"
    using assms unfolding kerr_def anharm_def by (auto simp: ev Let_def split: if_splits)
  have avg: "avg_kerr = 1000 * (sum_list anharm / real (length anharm))"
    and mx: "max_kerr = 1000 * M"
    using assms ne unfolding kerr_def anharm_def M_def
    by (auto simp: ev Let_def split: if_splits)
  have bound: "\<forall>y\<in>set (map abs anharm). y \<le> M"
    unfolding M_def by (auto intro: Max_ge)
  have M0: "0 \<le> M"
  proof -
    from ne obtain a where "a \<in> set anharm"
      by (cases anharm) auto
    then have "\<bar>a\<bar> \<le> M"
      using bound by simp
    then show ?thesis
      by linarith
  qed
  have len: "0 < real (length anharm)"
    using ne by simp
  have "\<bar>sum_list anharm\<bar> \<le> sum_list (map abs anharm)"
    by (rule sum_list_abs)
  also have "\<dots> \<le> real (length (map abs anharm)) * M"
    by (rule sum_list_le_length_times [OF bound])
  finally have "\<bar>sum_list anharm\<bar> \<le> real (length anharm) * M"
    by simp
  then have "\<bar>sum_list anharm\<bar> / real (length anharm) \<le> M"
    using len by (simp add: field_simps)
  then have "\<bar>sum_list anharm / real (length anharm)\<bar> \<le> M"
    by simp
  then show ?thesis
    using M0 by (simp add: avg mx abs_mult)
qed

theorem max_kerr_dominates_avg_kerr_witness:
  "kerr [0, 1, 4] = Inr (1/500, 1/500) \<and> (0::real) \<le> 1/500 \<and> \<bar>1/500::real\<bar> \<le> 1/500"
proof -
  have k: "kerr [0, 1, 4] = Inr (1/500, 1/500)"
    by (simp add: kerr_def successive_diffs_def)
  show ?thesis
    using k max_kerr_dominates_avg_kerr [OF k] by simp
qed

section \<open>The sweep over the two grids\<close>

lemma kerr_cavity_evals_Inr:
  "kerr (cavity_evals ge a p) = Inr (projr (kerr (cavity_evals ge a p)))"
  using kerr_spec [of "cavity_evals ge a p"] by (simp add: length_cavity_evals)

lemma sweep_body_eq:
  "sweep_body ge a p st =
     Inr (fst st @ [fst (projr (kerr (cavity_evals ge a p)))],
          snd st @ [snd (projr (kerr (cavity_evals ge a p)))])"
proof -
  obtain avg mx where "kerr (cavity_evals ge a p) = Inr (avg, mx)"
    using kerr_cavity_evals_Inr [of ge a p] by (metis surj_pair)
  then show ?thesis
    by (simp add: sweep_body_def)
qed

lemma inner_loop_eq:
  "inner_loop ge a ps st =
     Inr (fst st @ map (\<lambda>p. fst (projr (kerr (cavity_evals ge a p)))) ps,
          snd st @ map (\<lambda>p. snd (projr (kerr (cavity_evals ge a p)))) ps)"
  by (induction ps arbitrary: st) (simp_all add: sweep_body_eq)

lemma outer_loop_eq:
  "outer_loop ge as ps st =
     Inr (fst st @ concat (map (\<lambda>a. map (\<lambda>p. fst (projr (kerr (cavity_evals ge a p)))) ps) as),
          snd st @ concat (map (\<lambda>a. map (\<lambda>p. snd (projr (kerr (cavity_evals ge a p)))) ps) as))"
  by (induction as arbitrary: st) (simp_all add: inner_loop_eq)

lemma take_drop_concat_uniform:
  assumes "\<forall>r\<in>set rows. length r = c" and "i < length rows"
  shows "take c (drop (i * c) (concat rows)) = rows ! i"
  using assms
proof (induction rows arbitrary: i)
  case Nil
  then show ?case by simp
next
  case (Cons r rows)
  show ?case
  proof (cases i)
    case 0
    then show ?thesis using Cons.prems by simp
  next
    case (Suc k)
    then show ?thesis using Cons by simp
  qed
qed

lemma length_concat_uniform:
  "\<forall>r\<in>set rows. length r = c \<Longrightarrow> length (concat rows) = length rows * c"
  by (induction rows) simp_all

lemma reshape_concat_uniform:
  assumes "\<forall>r\<in>set rows. length r = c"
  shows "reshape (concat rows) (length rows, c) = Inr rows"
proof -
  have "map (\<lambda>i. take c (drop (i * c) (concat rows))) [0 ..< length rows] = rows"
    by (rule nth_equalityI) (simp_all add: take_drop_concat_uniform [OF assms])
  then show ?thesis
    by (simp add: reshape_def length_concat_uniform [OF assms])
qed

lemma nth_concat_uniform:
  assumes "\<forall>r\<in>set rows. length r = c" and "i < length rows" and "j < c"
  shows "concat rows ! (i * c + j) = rows ! i ! j"
proof -
  have "rows ! i ! j = take c (drop (i * c) (concat rows)) ! j"
    by (simp add: take_drop_concat_uniform [OF assms(1,2)])
  also have "\<dots> = concat rows ! (i * c + j)"
  proof -
    have "i * c + j < length (concat rows)"
    proof -
      have "i * c + j < Suc i * c" using assms(3) by simp
      also have "\<dots> \<le> length rows * c" using assms(2) by (simp add: Suc_leI mult_le_mono1 del: mult_Suc)
      finally show ?thesis by (simp add: length_concat_uniform [OF assms(1)])
    qed
    then show ?thesis using assms(3) by simp
  qed
  finally show ?thesis by simp
qed

lemma length_alpha_list: "length alpha_list = 20"
  by (simp add: alpha_list_def arange_def)

lemma length_phi_ext_list: "length phi_ext_list = 30"
proof -
  have "(0.491 * 2 * pi - 0.2 * 2 * pi) / (0.01 * 2 * pi) = (291 / 10 :: real)"
    by (simp add: field_simps)
  then show ?thesis
    by (simp add: phi_ext_list_def arange_def)
qed


text \<open>
  C3. The sweep visits every pair \<open>(alpha, phi_ext)\<close>, \<open>alpha\<close> over \<open>alpha_list\<close> in the
  outer loop and \<open>phi_ext\<close> over \<open>phi_ext_list\<close> in the inner loop, and appends one
  \<open>avg_kerr\<close> and one \<open>max_kerr\<close> per pair: the sweep returns, both lists have length
  \<open>len(alpha_list) * len(phi_ext_list)\<close>, entry \<open>i * len(phi_ext_list) + j\<close> holds the
  values of the pair \<open>(alpha_list[i], phi_ext_list[j])\<close>, and both lists reshape without
  loss to grids of \<open>len(alpha_list)\<close> rows of \<open>len(phi_ext_list)\<close> entries, row \<open>i\<close>,
  column \<open>j\<close> holding the values of that pair.
\<close>

theorem sweep_visits_every_pair:
  "\<exists>cavity_kerr_list max_kerr_list cavity_kerr_grid max_kerr_grid.
     sweep get_eigenstate = Inr (cavity_kerr_list, max_kerr_list)
   \<and> length cavity_kerr_list = length alpha_list * length phi_ext_list
   \<and> length max_kerr_list = length alpha_list * length phi_ext_list
   \<and> (\<forall>i<length alpha_list. \<forall>j<length phi_ext_list.
         kerr (cavity_evals get_eigenstate (alpha_list ! i) (phi_ext_list ! j)) =
           Inr (cavity_kerr_list ! (i * length phi_ext_list + j),
                max_kerr_list ! (i * length phi_ext_list + j)))
   \<and> driver get_eigenstate = Inr (cavity_kerr_grid, max_kerr_grid)
   \<and> concat cavity_kerr_grid = cavity_kerr_list
   \<and> concat max_kerr_grid = max_kerr_list
   \<and> length cavity_kerr_grid = length alpha_list
   \<and> length max_kerr_grid = length alpha_list
   \<and> (\<forall>i<length alpha_list.
         length (cavity_kerr_grid ! i) = length phi_ext_list
       \<and> length (max_kerr_grid ! i) = length phi_ext_list
       \<and> (\<forall>j<length phi_ext_list.
             kerr (cavity_evals get_eigenstate (alpha_list ! i) (phi_ext_list ! j)) =
               Inr (cavity_kerr_grid ! i ! j, max_kerr_grid ! i ! j)))"
proof -
  let ?K = "\<lambda>a p. projr (kerr (cavity_evals get_eigenstate a p))"
  let ?cg = "map (\<lambda>a. map (\<lambda>p. fst (?K a p)) phi_ext_list) alpha_list"
  let ?mg = "map (\<lambda>a. map (\<lambda>p. snd (?K a p)) phi_ext_list) alpha_list"
  let ?A = "length alpha_list"
  let ?P = "length phi_ext_list"
  have sw: "sweep get_eigenstate = Inr (concat ?cg, concat ?mg)"
    by (simp add: sweep_def outer_loop_eq)
  have uc: "\<forall>r\<in>set ?cg. length r = ?P" and um: "\<forall>r\<in>set ?mg. length r = ?P"
    by auto
  have lc: "length (concat ?cg) = ?A * ?P" and lm: "length (concat ?mg) = ?A * ?P"
    using length_concat_uniform [OF uc] length_concat_uniform [OF um] by simp_all
  have rc: "reshape (concat ?cg) (?A, ?P) = Inr ?cg"
    using reshape_concat_uniform [OF uc] by simp
  have rm: "reshape (concat ?mg) (?A, ?P) = Inr ?mg"
    using reshape_concat_uniform [OF um] by simp
  have dr: "driver get_eigenstate = Inr (?cg, ?mg)"
    by (simp add: driver_def sw rc rm)
  have grid: "kerr (cavity_evals get_eigenstate (alpha_list ! i) (phi_ext_list ! j)) =
                Inr (?cg ! i ! j, ?mg ! i ! j)"
    if "i < ?A" and "j < ?P" for i j
  proof -
    have c: "?cg ! i ! j = fst (?K (alpha_list ! i) (phi_ext_list ! j))"
      and m: "?mg ! i ! j = snd (?K (alpha_list ! i) (phi_ext_list ! j))"
      using that by simp_all
    show ?thesis
      unfolding c m prod.collapse by (rule kerr_cavity_evals_Inr)
  qed
  have flat: "kerr (cavity_evals get_eigenstate (alpha_list ! i) (phi_ext_list ! j)) =
                Inr (concat ?cg ! (i * ?P + j), concat ?mg ! (i * ?P + j))"
    if "i < ?A" and "j < ?P" for i j
  proof -
    have c: "concat ?cg ! (i * ?P + j) = ?cg ! i ! j"
      by (rule nth_concat_uniform [OF uc]) (use that in simp_all)
    have m: "concat ?mg ! (i * ?P + j) = ?mg ! i ! j"
      by (rule nth_concat_uniform [OF um]) (use that in simp_all)
    show ?thesis
      unfolding c m by (rule grid [OF that])
  qed
  have rows: "length (?cg ! i) = ?P" "length (?mg ! i) = ?P" if "i < ?A" for i
    using that by simp_all
  have lg: "length ?cg = ?A" "length ?mg = ?A"
    by simp_all
  have all: "sweep get_eigenstate = Inr (concat ?cg, concat ?mg)
   \<and> length (concat ?cg) = ?A * ?P
   \<and> length (concat ?mg) = ?A * ?P
   \<and> (\<forall>i<?A. \<forall>j<?P.
         kerr (cavity_evals get_eigenstate (alpha_list ! i) (phi_ext_list ! j)) =
           Inr (concat ?cg ! (i * ?P + j), concat ?mg ! (i * ?P + j)))
   \<and> driver get_eigenstate = Inr (?cg, ?mg)
   \<and> concat ?cg = concat ?cg
   \<and> concat ?mg = concat ?mg
   \<and> length ?cg = ?A
   \<and> length ?mg = ?A
   \<and> (\<forall>i<?A.
         length (?cg ! i) = ?P
       \<and> length (?mg ! i) = ?P
       \<and> (\<forall>j<?P.
             kerr (cavity_evals get_eigenstate (alpha_list ! i) (phi_ext_list ! j)) =
               Inr (?cg ! i ! j, ?mg ! i ! j)))"
    using sw lc lm dr flat grid rows lg by blast
  show ?thesis
    apply (rule exI [of _ "concat ?cg"])
    apply (rule exI [of _ "concat ?mg"])
    apply (rule exI [of _ ?cg])
    apply (rule exI [of _ ?mg])
    by (rule all)
qed

theorem sweep_visits_every_pair_witness:
  "\<exists>cavity_kerr_list max_kerr_list cavity_kerr_grid max_kerr_grid.
     sweep (\<lambda>a p i. complex_of_real a + of_nat i * complex_of_real p)
       = Inr (cavity_kerr_list, max_kerr_list)
   \<and> length cavity_kerr_list = 600
   \<and> length max_kerr_list = 600
   \<and> cavity_kerr_list ! (19 * 30 + 29) = 0
   \<and> driver (\<lambda>a p i. complex_of_real a + of_nat i * complex_of_real p)
       = Inr (cavity_kerr_grid, max_kerr_grid)
   \<and> length cavity_kerr_grid = 20
   \<and> length (cavity_kerr_grid ! 19) = 30
   \<and> cavity_kerr_grid ! 19 ! 29 = 0
   \<and> max_kerr_grid ! 19 ! 29 = 0"
proof -
  let ?ge = "\<lambda>a p i. complex_of_real a + of_nat i * complex_of_real p"
  have z: "kerr (cavity_evals ?ge a p) = Inr (0, 0)" for a p
  proof (rule kerr_equally_spaced [where d = "complex_of_real p"])
    show "3 \<le> length (cavity_evals ?ge a p)"
      by (simp add: length_cavity_evals)
    show "\<forall>i<length (cavity_evals ?ge a p).
            cavity_evals ?ge a p ! i = cavity_evals ?ge a p ! 0 + of_nat i * complex_of_real p"
      by (simp add: cavity_evals_def fock_trunc_def del: upt_Suc)
  qed
  obtain ckl mkl ckg mkg where w:
    "sweep ?ge = Inr (ckl, mkl)"
    "length ckl = length alpha_list * length phi_ext_list"
    "length mkl = length alpha_list * length phi_ext_list"
    "\<forall>i<length alpha_list. \<forall>j<length phi_ext_list.
       kerr (cavity_evals ?ge (alpha_list ! i) (phi_ext_list ! j)) =
         Inr (ckl ! (i * length phi_ext_list + j), mkl ! (i * length phi_ext_list + j))"
    "driver ?ge = Inr (ckg, mkg)"
    "length ckg = length alpha_list"
    "\<forall>i<length alpha_list.
       length (ckg ! i) = length phi_ext_list
     \<and> length (mkg ! i) = length phi_ext_list
     \<and> (\<forall>j<length phi_ext_list.
           kerr (cavity_evals ?ge (alpha_list ! i) (phi_ext_list ! j)) =
             Inr (ckg ! i ! j, mkg ! i ! j))"
    using sweep_visits_every_pair [of ?ge] by blast
  have f: "ckl ! (19 * 30 + 29) = 0"
    using w(4) [rule_format, of 19 29] by (simp add: z length_alpha_list length_phi_ext_list)
  have g: "length (ckg ! 19) = 30 \<and> ckg ! 19 ! 29 = 0 \<and> mkg ! 19 ! 29 = 0"
    using w(7) [rule_format, of 19] by (simp add: z length_alpha_list length_phi_ext_list)
  show ?thesis
    using w(1,2,3,5,6) f g by (simp add: length_alpha_list length_phi_ext_list)
qed





section \<open>The starting point of the minimisation\<close>

lemma sequence_map_Inr:
  assumes "\<forall>x\<in>set xs. f x = Inr (g x)"
  shows "sequence (map f xs) = Inr (map g xs)"
  using assms by (induction xs) simp_all

lemma py_min_Min: "xs \<noteq> [] \<Longrightarrow> py_min xs = Inr (Min (set xs))"
proof (cases xs)
  case Nil
  assume "xs \<noteq> []"
  with Nil show ?thesis by simp
next
  case (Cons y ys)
  show ?thesis
    unfolding Cons Min.set_eq_fold by (simp add: py_min_def)
qed

lemma arange_nonempty:
  assumes "start < stop" and "0 < step"
  shows "arange start stop step \<noteq> [] \<and> hd (arange start stop step) = start"
proof -
  have "0 < (stop - start) / step"
    using assms by simp
  then have "0 < \<lceil>(stop - start) / step\<rceil>"
    by linarith
  then have "0 < nat \<lceil>(stop - start) / step\<rceil>"
    by simp
  then obtain m where m: "nat \<lceil>(stop - start) / step\<rceil> = Suc m"
    by (cases "nat \<lceil>(stop - start) / step\<rceil>") auto
  show ?thesis
    unfolding arange_def m by (simp add: upt_conv_Cons del: upt_Suc)
qed

lemma failing_potential:
  "SNAIL_potential (SNAIL 1 (1/2) pi Lj) phi = Inr (cos phi / 2)"
  by (simp add: Let_def)

lemma failing_phi_min_0: "SNAIL_phi_min_0 (SNAIL 1 (1/2) pi Lj) = Inr (- 1/2)"
proof -
  let ?s = "SNAIL 1 (1/2) pi Lj"
  let ?grid = "SNAIL_phi_array ?s"
  have ne: "?grid \<noteq> []" and h: "hd ?grid = - pi"
    using arange_nonempty [of "- pi" pi "0.01"] by simp_all
  have seq: "sequence (map (\<lambda>phi. SNAIL_potential ?s phi) ?grid) =
               Inr (map (\<lambda>phi. cos phi / 2) ?grid)"
    by (rule sequence_map_Inr) (simp add: failing_potential)
  have ne': "map (\<lambda>phi. cos phi / 2) ?grid \<noteq> []"
    using ne by simp
  have "Min (set (map (\<lambda>phi. cos phi / 2) ?grid)) = - 1/2"
  proof (rule Min_eqI)
    show "finite (set (map (\<lambda>phi. cos phi / 2) ?grid))"
      by simp
    show "- 1/2 \<le> y" if "y \<in> set (map (\<lambda>phi. cos phi / 2) ?grid)" for y
    proof -
      from that obtain phi where "y = cos phi / 2"
        by auto
      moreover have "- 1 \<le> cos phi"
        by (rule cos_ge_minus_one)
      ultimately show ?thesis
        by linarith
    qed
    have "hd ?grid \<in> set ?grid"
      using ne by (rule hd_in_set)
    then have "cos (hd ?grid) / 2 \<in> set (map (\<lambda>phi. cos phi / 2) ?grid)"
      by (simp add: image_iff del: SNAIL_phi_array.simps) blast
    then show "- 1/2 \<in> set (map (\<lambda>phi. cos phi / 2) ?grid)"
      unfolding h by simp
  qed
  then show ?thesis
    unfolding SNAIL_phi_min_0_def seq using py_min_Min [OF ne'] by simp
qed


lemma failing_potential2:
  "SNAIL2_potential (SNAIL2 Ej 1 (1/2) pi) phi True = Inr (cos phi / 2)"
  by (simp add: Let_def)

lemma failing_phi_min_0_2: "SNAIL2_phi_min_0 (SNAIL2 Ej 1 (1/2) pi) = Inr (- 1/2)"
proof -
  have g: "SNAIL2_phi_array (SNAIL2 Ej 1 (1/2) pi) = SNAIL_phi_array (SNAIL 1 (1/2) pi 0)"
    by simp
  have "SNAIL2_phi_min_0 (SNAIL2 Ej 1 (1/2) pi) = SNAIL_phi_min_0 (SNAIL 1 (1/2) pi 0)"
    unfolding SNAIL2_phi_min_0_def SNAIL_phi_min_0_def g failing_potential failing_potential2
    by (rule refl)
  then show ?thesis
    by (simp only: failing_phi_min_0)
qed

lemma cos_half_pos: "0 < cos (1/2 :: real)"
proof (rule cos_gt_zero)
  show "(0::real) < 1/2" by simp
  show "(1/2::real) < pi / 2" using pi_ge_two by simp
qed

text \<open>
  C1. Evaluation at \<open>SNAIL(n=1, alpha=0.5, phi_ext=pi)\<close>, where the potential is
  \<open>cos(phi)/2\<close>: the value \<open>phi_min_0\<close> is \<open>-0.5\<close>, the least sampled value of the
  potential, and it is what \<open>solve_expansion\<close> hands to \<open>minimize\<close> as starting point
  (a \<open>minimize\<close> that returns its starting point makes it the first returned value). It
  is not a flux at which the sampled potential is smallest: the potential at \<open>-0.5\<close> is
  \<open>cos(0.5)/2 > 0\<close>, above the sampled minimum \<open>-0.5\<close>. The same holds in \<open>SNAIL2\<close>.
\<close>

theorem solve_expansion_start_is_potential_value:
  "SNAIL_phi_min_0 (SNAIL 1 (1/2) pi Lj) = Inr (- 1/2)
   \<and> map_sum id fst
        (SNAIL_solve_expansion (ext\<lparr>minimize := \<lambda>f x0. x0\<rparr>) (SNAIL 1 (1/2) pi Lj)
           degree scale order) = Inr (- 1/2)
   \<and> SNAIL_potential (SNAIL 1 (1/2) pi Lj) (- 1/2) = Inr (cos (1/2) / 2)
   \<and> SNAIL2_phi_min_0 (SNAIL2 Ej 1 (1/2) pi) = Inr (- 1/2)
   \<and> map_sum id fst
        (SNAIL2_solve_expansion (ext\<lparr>minimize := \<lambda>f x0. x0\<rparr>) (SNAIL2 Ej 1 (1/2) pi)
           degree scale order norm_flag) = Inr (- 1/2)
   \<and> SNAIL2_potential (SNAIL2 Ej 1 (1/2) pi) (- 1/2) True = Inr (cos (1/2) / 2)
   \<and> - 1/2 < cos (1/2 :: real) / 2"
proof -
  have a: "map_sum id fst
        (SNAIL_solve_expansion (ext\<lparr>minimize := \<lambda>f x0. x0\<rparr>) (SNAIL 1 (1/2) pi Lj)
           degree scale order) = Inr (- 1/2)"
    by (simp only: SNAIL_solve_expansion.simps failing_phi_min_0) (simp add: Let_def)
  have b: "map_sum id fst
        (SNAIL2_solve_expansion (ext\<lparr>minimize := \<lambda>f x0. x0\<rparr>) (SNAIL2 Ej 1 (1/2) pi)
           degree scale order norm_flag) = Inr (- 1/2)"
    by (simp only: SNAIL2_solve_expansion.simps failing_phi_min_0_2) (simp add: Let_def)
  have c: "- 1/2 < cos (1/2 :: real) / 2"
    using cos_half_pos by simp
  have d: "SNAIL_potential (SNAIL 1 (1/2) pi Lj) (- 1/2) = Inr (cos (1/2) / 2)"
    using failing_potential [of Lj "- 1/2"] by simp
  have e: "SNAIL2_potential (SNAIL2 Ej 1 (1/2) pi) (- 1/2) True = Inr (cos (1/2) / 2)"
    using failing_potential2 [of Ej "- 1/2"] by simp
  show ?thesis
    using failing_phi_min_0 [of Lj] failing_phi_min_0_2 [of Ej] a b c d e by blast
qed

end
